theory Spec2Isabelle
  imports Main "HOL-Library.Word"
begin

section \<open>The heap of yvm: \<^verbatim>\<open>src/runtime/JavaHeap.hpp\<close>\<close>

text \<open>
  The header defines a generic handle arena \<^verbatim>\<open>Container<Type>\<close> over a
  \<^verbatim>\<open>std::map<size_t, Type>\<close>, its three specialisations (objects, arrays, monitors) and
  the facade \<^verbatim>\<open>JavaHeap\<close>. Handles are \<^verbatim>\<open>size_t\<close>: unsigned, 64 bits on the platforms
  the runtime is built for, and \<^verbatim>\<open>lastOffset + 1\<close> wraps around.
\<close>

type_synonym size_t = "64 word"

definition SIZE_MAX :: size_t where
  "SIZE_MAX = - 1"

subsection \<open>Results of C++ expressions\<close>

text \<open>
  The header raises no exception anywhere. What it can do besides returning is
  undefined behaviour: dereferencing the end iterator of the map, dereferencing the null
  pointer a failed \<^verbatim>\<open>dynamic_cast\<close> yields, indexing past the end of a vector or buffer.
  \<open>fault\<close> names the undefined operation. \<open>error\<close> is the error taxonomy of the
  specification, kept so that an outcome can be compared with it.
\<close>

datatype fault = EndIteratorDeref | NullDeref | IndexOutOfRange | DanglingPointer

datatype error = NotFound | FieldNotFound | DescriptorMismatch | NoMonitor | InvalidReferenceKind

datatype 'a outcome = Returns 'a | Throws error | Undefined fault

subsection \<open>\<^verbatim>\<open>std::map<size_t, Type>\<close>\<close>

text \<open>
  The map is the list of its entries in iteration order, which is ascending key order with
  no key twice (\<open>ordered\<close>). \<open>map_find\<close> is \<^verbatim>\<open>data.find(k)\<close> with \<open>None\<close> for
  \<^verbatim>\<open>data.end()\<close>; \<open>map_insert\<close> is \<^verbatim>\<open>data.insert(make_pair(k, v))\<close>, which leaves the
  map as it is when the key is present; \<open>map_erase\<close> is \<^verbatim>\<open>data.erase(k)\<close>;
  \<open>map_assign\<close> is an assignment through the reference \<^verbatim>\<open>data.find(k)->second\<close>.
\<close>

type_synonym 'a cmap = "(size_t \<times> 'a) list"

definition keys :: "'a cmap \<Rightarrow> size_t list" where
  "keys data = map fst data"

definition ordered :: "'a cmap \<Rightarrow> bool" where
  "ordered data \<longleftrightarrow> sorted (keys data) \<and> distinct (keys data)"

definition map_find :: "'a cmap \<Rightarrow> size_t \<Rightarrow> 'a option" where
  "map_find data k = map_of data k"

fun insort_entry :: "size_t \<Rightarrow> 'a \<Rightarrow> 'a cmap \<Rightarrow> 'a cmap" where
  "insort_entry k v [] = [(k, v)]"
| "insort_entry k v (e # data) =
     (if k < fst e then (k, v) # e # data else e # insort_entry k v data)"

definition map_insert :: "size_t \<Rightarrow> 'a \<Rightarrow> 'a cmap \<Rightarrow> 'a cmap" where
  "map_insert k v data = (if map_find data k = None then insort_entry k v data else data)"

definition map_erase :: "size_t \<Rightarrow> 'a cmap \<Rightarrow> 'a cmap" where
  "map_erase k data = filter (\<lambda>e. fst e \<noteq> k) data"

definition map_assign :: "size_t \<Rightarrow> 'a \<Rightarrow> 'a cmap \<Rightarrow> 'a cmap" where
  "map_assign k v data = map (\<lambda>e. if fst e = k then (k, v) else e) data"

subsection \<open>\<^verbatim>\<open>Container<Type>\<close>\<close>

text \<open>
  \<^verbatim>\<open>Type& find(size_t offset) { return data.find(offset)->second; }\<close> dereferences
  whatever \<^verbatim>\<open>data.find\<close> returns, the end iterator included.
\<close>

definition Container_find :: "'a cmap \<Rightarrow> size_t \<Rightarrow> 'a outcome" where
  "Container_find data offset =
     (case map_find data offset of
        None \<Rightarrow> Undefined EndIteratorDeref
      | Some r \<Rightarrow> Returns r)"

definition Container_has :: "'a cmap \<Rightarrow> size_t \<Rightarrow> bool" where
  "Container_has data offset \<longleftrightarrow> map_find data offset \<noteq> None"

definition Container_remove :: "size_t \<Rightarrow> 'a cmap \<Rightarrow> 'a cmap" where
  "Container_remove offset data =
     (if map_find data offset \<noteq> None then map_erase offset data else data)"

text \<open>
  \<^verbatim>\<open>place\<close>: \<open>dflt\<close> is the value-initialised \<^verbatim>\<open>Type{}\<close>. The result is the returned
  handle and the map after the insertion.
\<close>

definition Container_place :: "'a \<Rightarrow> 'a cmap \<Rightarrow> size_t \<times> 'a cmap" where
  "Container_place dflt data =
     (let lastOffset = (if data \<noteq> [] then fst (last data) else 0)
      in (lastOffset + 1, map_insert (lastOffset + 1) dflt data))"

subsection \<open>The three stores\<close>

text \<open>
  Slot values are \<^verbatim>\<open>JType*\<close>, monitors \<^verbatim>\<open>ObjectMonitor*\<close>, array buffers \<^verbatim>\<open>JType**\<close>:
  raw pointers into the C++ free store. \<open>InternalObject\<close> is \<^verbatim>\<open>vector<JType*>\<close>,
  \<open>InternalArray\<close> is \<^verbatim>\<open>pair<size_t, JType**>\<close> (element count, buffer),
  \<open>InternalMonitor\<close> is \<^verbatim>\<open>ObjectMonitor*\<close>.
\<close>

datatype ptr = Null | Addr nat

type_synonym InternalObject = "ptr list"
type_synonym InternalArray = "size_t \<times> ptr"
type_synonym InternalMonitor = ptr

text \<open>
  \<^verbatim>\<open>ObjectContainer\<close> and \<^verbatim>\<open>ArrayContainer\<close> inherit \<^verbatim>\<open>Container::place\<close>; the
  value-initialised records are the empty vector and the pair \<^verbatim>\<open>(0, nullptr)\<close>.
\<close>

definition ObjectContainer_place :: "InternalObject cmap \<Rightarrow> size_t \<times> InternalObject cmap" where
  "ObjectContainer_place = Container_place []"

definition ArrayContainer_place :: "InternalArray cmap \<Rightarrow> size_t \<times> InternalArray cmap" where
  "ArrayContainer_place = Container_place (0, Null)"

text \<open>
  \<^verbatim>\<open>MonitorContainer::place\<close> overrides it and stores \<^verbatim>\<open>new ObjectMonitor()\<close>;
  \<open>mon\<close> is the address the \<^verbatim>\<open>new\<close> expression yields.
\<close>

definition MonitorContainer_place :: "nat \<Rightarrow> InternalMonitor cmap \<Rightarrow> size_t \<times> InternalMonitor cmap" where
  "MonitorContainer_place mon data =
     (let lastOffset = (if data \<noteq> [] then fst (last data) else 0)
      in (lastOffset + 1, map_insert (lastOffset + 1) (Addr mon) data))"

subsection \<open>Class descriptors and runtime values\<close>

text \<open>
  Modelled from the spec: \<^verbatim>\<open>JavaClass\<close> (the class-metadata provider) is not part of the
  sources. The specification gives a class descriptor an ancestor chain in root-to-leaf
  order and, per class, the ordered list of declared (name, descriptor) field pairs.
\<close>

datatype JavaClass =
  JavaClass (className: string) (declaredFields: "(string \<times> string) list") (superClass: "JavaClass option")

fun chain :: "JavaClass \<Rightarrow> JavaClass list" where
  "chain (JavaClass n fs None) = [JavaClass n fs None]"
| "chain (JavaClass n fs (Some s)) = chain s @ [JavaClass n fs (Some s)]"

text \<open>
  Modelled from the spec: \<^verbatim>\<open>JavaType.h\<close> is not part of the sources. The header uses
  \<^verbatim>\<open>JObject::offset\<close>, \<^verbatim>\<open>JObject::jc\<close> and \<^verbatim>\<open>JArray::offset\<close>, and casts a
  \<^verbatim>\<open>const JType*\<close> to \<^verbatim>\<open>const JObject*\<close>; the specification's values are primitives,
  object references and array references. \<open>dynamic_cast_JObject\<close> is the cast, with
  \<open>None\<close> for the null pointer it yields on any other kind.
\<close>

record JObject =
  offset :: size_t
  jc :: JavaClass

record JArray =
  offset_arr :: size_t

datatype JType = ObjectRef JObject | ArrayRef JArray | Primitive int

definition dynamic_cast_JObject :: "JType \<Rightarrow> JObject option" where
  "dynamic_cast_JObject ref = (case ref of ObjectRef object \<Rightarrow> Some object | _ \<Rightarrow> None)"

subsection \<open>\<^verbatim>\<open>JavaHeap\<close>\<close>

text \<open>
  The three containers are the members of the class. \<open>buffers\<close> and \<open>live\<close> are the
  part of the free store the containers point into: the \<^verbatim>\<open>JType*[n]\<close> element buffers
  by address, and the addresses of the objects created by \<^verbatim>\<open>new\<close> and not deleted yet.
  The three mutexes have no effect on a single thread and are left out.
\<close>

record JavaHeap =
  objectContainer :: "InternalObject cmap"
  arrayContainer :: "InternalArray cmap"
  monitorContainer :: "InternalMonitor cmap"
  buffers :: "nat \<rightharpoonup> ptr list"
  live :: "nat set"

definition putFieldByOffset :: "JObject \<Rightarrow> size_t \<Rightarrow> ptr \<Rightarrow> JavaHeap \<Rightarrow> JavaHeap outcome" where
  "putFieldByOffset object fieldOffset v h =
     (case Container_find (objectContainer h) (offset object) of
        Returns slots \<Rightarrow>
          if unat fieldOffset < length slots
          then Returns (h\<lparr>objectContainer :=
                 map_assign (offset object) (slots[unat fieldOffset := v]) (objectContainer h)\<rparr>)
          else Undefined IndexOutOfRange
      | Throws e \<Rightarrow> Throws e
      | Undefined f \<Rightarrow> Undefined f)"

definition getFieldByOffset :: "JObject \<Rightarrow> size_t \<Rightarrow> JavaHeap \<Rightarrow> ptr outcome" where
  "getFieldByOffset object fieldOffset h =
     (case Container_find (objectContainer h) (offset object) of
        Returns slots \<Rightarrow>
          if unat fieldOffset < length slots
          then Returns (slots ! unat fieldOffset)
          else Undefined IndexOutOfRange
      | Throws e \<Rightarrow> Throws e
      | Undefined f \<Rightarrow> Undefined f)"

definition getFields :: "JObject \<Rightarrow> JavaHeap \<Rightarrow> InternalObject outcome" where
  "getFields object h = Container_find (objectContainer h) (offset object)"

text \<open>
  \<^verbatim>\<open>arrayContainer.find(array.offset).second[index]\<close> indexes the buffer the record points
  to: a null or dangling buffer pointer and an index past the buffer are undefined.
\<close>

definition putElement :: "JArray \<Rightarrow> size_t \<Rightarrow> ptr \<Rightarrow> JavaHeap \<Rightarrow> JavaHeap outcome" where
  "putElement array index v h =
     (case Container_find (arrayContainer h) (offset_arr array) of
        Returns (n, Null) \<Rightarrow> Undefined NullDeref
      | Returns (n, Addr a) \<Rightarrow>
          (case buffers h a of
             None \<Rightarrow> Undefined DanglingPointer
           | Some elems \<Rightarrow>
               if unat index < length elems
               then Returns (h\<lparr>buffers := (buffers h)(a \<mapsto> elems[unat index := v])\<rparr>)
               else Undefined IndexOutOfRange)
      | Throws e \<Rightarrow> Throws e
      | Undefined f \<Rightarrow> Undefined f)"

definition getElement :: "JArray \<Rightarrow> size_t \<Rightarrow> JavaHeap \<Rightarrow> ptr outcome" where
  "getElement array index h =
     (case Container_find (arrayContainer h) (offset_arr array) of
        Returns (n, Null) \<Rightarrow> Undefined NullDeref
      | Returns (n, Addr a) \<Rightarrow>
          (case buffers h a of
             None \<Rightarrow> Undefined DanglingPointer
           | Some elems \<Rightarrow>
               if unat index < length elems
               then Returns (elems ! unat index)
               else Undefined IndexOutOfRange)
      | Throws e \<Rightarrow> Throws e
      | Undefined f \<Rightarrow> Undefined f)"

definition getElements :: "JArray \<Rightarrow> JavaHeap \<Rightarrow> InternalArray outcome" where
  "getElements array h = Container_find (arrayContainer h) (offset_arr array)"

definition removeArray :: "size_t \<Rightarrow> JavaHeap \<Rightarrow> JavaHeap" where
  "removeArray off h = h\<lparr>arrayContainer := Container_remove off (arrayContainer h)\<rparr>"

definition removeObject :: "size_t \<Rightarrow> JavaHeap \<Rightarrow> JavaHeap" where
  "removeObject off h = h\<lparr>objectContainer := Container_remove off (objectContainer h)\<rparr>"

definition hasMonitor :: "JType \<Rightarrow> JavaHeap \<Rightarrow> bool outcome" where
  "hasMonitor ref h =
     (case dynamic_cast_JObject ref of
        None \<Rightarrow> Undefined NullDeref
      | Some object \<Rightarrow> Returns (Container_has (monitorContainer h) (offset object)))"


definition findMonitor :: "JType \<Rightarrow> JavaHeap \<Rightarrow> InternalMonitor outcome" where
  "findMonitor ref h =
     (case dynamic_cast_JObject ref of
        None \<Rightarrow> Undefined NullDeref
      | Some object \<Rightarrow> Container_find (monitorContainer h) (offset object))"


text \<open>
  The element sequence of an array record is reached through the raw \<^verbatim>\<open>JType**\<close> of its
  pair. \<open>exclusive\<close> says that no two records of the array store point to the same buffer:
  each creation of an array allocates a buffer of its own.
\<close>

definition exclusive :: "InternalArray cmap \<Rightarrow> bool" where
  "exclusive data \<longleftrightarrow> distinct (map (snd \<circ> snd) (filter (\<lambda>e. snd (snd e) \<noteq> Null) data))"

subsection \<open>Instance creation and field resolution by name\<close>

text \<open>
  Modelled from the spec: \<^verbatim>\<open>createObject\<close> and \<^verbatim>\<open>createSuperFields\<close> are declared in the
  header and defined in \<^verbatim>\<open>JavaHeap.cpp\<close>, which is not part of the sources. The
  specification: compute the total field-slot count by summing the declared-field counts
  across the ancestor chain, root first (\<open>slotCount\<close>); allocate an object-store record of
  exactly that length; then recursively initialise the slots the superclasses contribute
  before the class's own slots, so that ancestors occupy the low indices; return a
  reference wrapping the new handle. \<open>init\<close> gives the initial value of a slot from the
  field's descriptor; \<open>createSuperFields\<close> returns the index after the last slot it
  initialised together with the record.
\<close>

definition slotCount :: "JavaClass \<Rightarrow> nat" where
  "slotCount javaClass = sum_list (map (\<lambda>c. length (declaredFields c)) (chain javaClass))"

fun initFields :: "(string \<Rightarrow> ptr) \<Rightarrow> (string \<times> string) list \<Rightarrow> nat \<Rightarrow> ptr list \<Rightarrow> ptr list" where
  "initFields init [] base slots = slots"
| "initFields init ((name, descriptor) # fs) base slots =
     initFields init fs (Suc base) (slots[base := init descriptor])"

fun createSuperFields :: "(string \<Rightarrow> ptr) \<Rightarrow> JavaClass \<Rightarrow> ptr list \<Rightarrow> nat \<times> ptr list" where
  "createSuperFields init (JavaClass n fs None) slots = (length fs, initFields init fs 0 slots)"
| "createSuperFields init (JavaClass n fs (Some s)) slots =
     (let (base, slots') = createSuperFields init s slots
      in (base + length fs, initFields init fs base slots'))"

fun addrs :: "ptr list \<Rightarrow> nat set" where
  "addrs [] = {}"
| "addrs (Null # ps) = addrs ps"
| "addrs (Addr a # ps) = insert a (addrs ps)"

definition createObject :: "(string \<Rightarrow> ptr) \<Rightarrow> JavaClass \<Rightarrow> JavaHeap \<Rightarrow> JObject \<times> JavaHeap" where
  "createObject init javaClass h =
     (let (off, data) = ObjectContainer_place (objectContainer h);
          slots = snd (createSuperFields init javaClass (replicate (slotCount javaClass) Null))
      in (\<lparr>offset = off, jc = javaClass\<rparr>,
          h\<lparr>objectContainer := map_assign off slots data, live := live h \<union> addrs slots\<rparr>))"

text \<open>
  Modelled from the spec: \<^verbatim>\<open>getFieldByNameImpl\<close> and \<^verbatim>\<open>putFieldByNameImpl\<close>, to which
  \<^verbatim>\<open>getFieldByName\<close> and \<^verbatim>\<open>putFieldByName\<close> forward with the instance's actual class, are
  defined in \<^verbatim>\<open>JavaHeap.cpp\<close>, which is not part of the sources. The specification: walk
  the ancestor chain of the instance's actual class to find where the declaring class's own
  fields begin in the flat layout, the sum of the field counts of all of its ancestors
  (\<open>fieldsBase\<close>); within that class's own field list find the field matching (name,
  descriptor) by declaration order (\<open>localIndex\<close>) and add its local index to the base.
  The resolution fails with \<open>FieldNotFound\<close> if no ancestor matches, or with
  \<open>DescriptorMismatch\<close> if a name match exists but the descriptor differs.
\<close>

fun fieldsBase :: "JavaClass list \<Rightarrow> JavaClass \<Rightarrow> nat \<Rightarrow> nat option" where
  "fieldsBase [] declaring base = None"
| "fieldsBase (c # cs) declaring base =
     (if c = declaring then Some base
      else fieldsBase cs declaring (base + length (declaredFields c)))"

fun localIndex :: "(string \<times> string) list \<Rightarrow> string \<Rightarrow> string \<Rightarrow> nat \<Rightarrow> nat option" where
  "localIndex [] name descriptor i = None"
| "localIndex (f # fs) name descriptor i =
     (if f = (name, descriptor) then Some i else localIndex fs name descriptor (Suc i))"

definition resolveField :: "JavaClass \<Rightarrow> JavaClass \<Rightarrow> string \<Rightarrow> string \<Rightarrow> nat outcome" where
  "resolveField actual declaring name descriptor =
     (case fieldsBase (chain actual) declaring 0 of
        None \<Rightarrow> Throws FieldNotFound
      | Some base \<Rightarrow>
          (case localIndex (declaredFields declaring) name descriptor 0 of
             Some i \<Rightarrow> Returns (base + i)
           | None \<Rightarrow>
               if name \<in> set (map fst (declaredFields declaring))
               then Throws DescriptorMismatch
               else Throws FieldNotFound))"

subsection \<open>Destructors of the stores\<close>

text \<open>
  \<^verbatim>\<open>delete p\<close> ends the life of the object \<open>p\<close> points to: nothing for the null pointer,
  undefined for an address that is not live. \<^verbatim>\<open>~ObjectContainer\<close> deletes every slot
  value of every record; \<^verbatim>\<open>~ArrayContainer\<close> deletes the first \<^verbatim>\<open>first\<close> elements of
  every record's buffer and then the buffer (\<^verbatim>\<open>delete[]\<close>).
\<close>

fun delete_ptr :: "ptr \<Rightarrow> nat set \<Rightarrow> nat set outcome" where
  "delete_ptr Null lv = Returns lv"
| "delete_ptr (Addr a) lv = (if a \<in> lv then Returns (lv - {a}) else Undefined DanglingPointer)"

fun delete_each :: "ptr list \<Rightarrow> nat set \<Rightarrow> nat set outcome" where
  "delete_each [] lv = Returns lv"
| "delete_each (p # ps) lv =
     (case delete_ptr p lv of
        Returns lv' \<Rightarrow> delete_each ps lv'
      | Throws e \<Rightarrow> Throws e
      | Undefined f \<Rightarrow> Undefined f)"

fun ObjectContainer_dtor :: "InternalObject cmap \<Rightarrow> nat set \<Rightarrow> nat set outcome" where
  "ObjectContainer_dtor [] lv = Returns lv"
| "ObjectContainer_dtor ((k, slots) # data) lv =
     (case delete_each slots lv of
        Returns lv' \<Rightarrow> ObjectContainer_dtor data lv'
      | Throws e \<Rightarrow> Throws e
      | Undefined f \<Rightarrow> Undefined f)"

fun ArrayContainer_dtor ::
  "InternalArray cmap \<Rightarrow> (nat \<rightharpoonup> ptr list) \<Rightarrow> nat set \<Rightarrow> ((nat \<rightharpoonup> ptr list) \<times> nat set) outcome" where
  "ArrayContainer_dtor [] bufs lv = Returns (bufs, lv)"
| "ArrayContainer_dtor ((k, (n, Null)) # data) bufs lv =
     (if n = 0 then ArrayContainer_dtor data bufs lv else Undefined NullDeref)"
| "ArrayContainer_dtor ((k, (n, Addr a)) # data) bufs lv =
     (case bufs a of
        None \<Rightarrow> Undefined DanglingPointer
      | Some elems \<Rightarrow>
          if unat n \<le> length elems
          then (case delete_each (take (unat n) elems) lv of
                  Returns lv' \<Rightarrow> ArrayContainer_dtor data (bufs(a := None)) lv'
                | Throws e \<Rightarrow> Throws e
                | Undefined f \<Rightarrow> Undefined f)
          else Undefined IndexOutOfRange)"

subsection \<open>Sequences of arena operations\<close>

datatype op = Place | Remove size_t

fun run_ops :: "'a \<Rightarrow> op list \<Rightarrow> 'a cmap \<Rightarrow> 'a cmap" where
  "run_ops dflt [] data = data"
| "run_ops dflt (Place # ops) data = run_ops dflt ops (snd (Container_place dflt data))"
| "run_ops dflt (Remove k # ops) data = run_ops dflt ops (Container_remove k data)"

text \<open>
  One allocation followed by \<open>n\<close> rounds of allocating the next record and removing the
  previous one: a run that keeps at most two records in the store.
\<close>

fun rolling_ops :: "nat \<Rightarrow> op list" where
  "rolling_ops 0 = [Place]"
| "rolling_ops (Suc n) = rolling_ops n @ [Place, Remove (of_nat (Suc n))]"

datatype monitor_op = MonitorPlace nat | MonitorRemove size_t

fun run_monitor_ops :: "monitor_op list \<Rightarrow> InternalMonitor cmap \<Rightarrow> InternalMonitor cmap" where
  "run_monitor_ops [] data = data"
| "run_monitor_ops (MonitorPlace mon # ops) data =
     run_monitor_ops ops (snd (MonitorContainer_place mon data))"
| "run_monitor_ops (MonitorRemove k # ops) data = run_monitor_ops ops (Container_remove k data)"

section \<open>Facts about the map\<close>

lemma keys_simps [simp]: "keys [] = []" "keys (e # data) = fst e # keys data"
  by (simp_all add: keys_def)

lemma ordered_Nil [simp]: "ordered []"
  by (simp add: ordered_def)

lemma ordered_Cons:
  "ordered (e # data) \<longleftrightarrow> (\<forall>k \<in> set (keys data). fst e < k) \<and> ordered data"
  by (auto simp: ordered_def less_le)

lemma map_find_None_iff: "map_find data k = None \<longleftrightarrow> k \<notin> set (keys data)"
  by (simp add: map_find_def keys_def map_of_eq_None_iff)

lemma keys_insort_entry: "set (keys (insort_entry k v data)) = insert k (set (keys data))"
  by (induction data) auto

lemma ordered_insort_entry:
  "ordered data \<Longrightarrow> k \<notin> set (keys data) \<Longrightarrow> ordered (insort_entry k v data)"
proof (induction data)
  case Nil
  then show ?case by (simp add: ordered_def)
next
  case (Cons e data)
  then show ?case
    by (auto simp: ordered_Cons keys_insort_entry)
qed

lemma ordered_map_insert: "ordered data \<Longrightarrow> ordered (map_insert k v data)"
  by (simp add: map_insert_def ordered_insort_entry map_find_None_iff)

lemma map_find_insort_entry:
  "k \<notin> set (keys data) \<Longrightarrow>
   map_find (insort_entry k v data) k' = (if k' = k then Some v else map_find data k')"
  by (induction data) (auto simp: map_find_def)

lemma map_find_map_insert:
  "map_find (map_insert k v data) k' =
     (if k' = k \<and> map_find data k = None then Some v else map_find data k')"
  by (auto simp: map_insert_def map_find_insort_entry map_find_None_iff)

lemma keys_map_insert: "set (keys (map_insert k v data)) = insert k (set (keys data))"
  by (auto simp: map_insert_def keys_insort_entry map_find_None_iff)

lemma keys_map_erase: "set (keys (map_erase k data)) = set (keys data) - {k}"
  by (auto simp: map_erase_def keys_def)

lemma ordered_map_erase: "ordered data \<Longrightarrow> ordered (map_erase k data)"
  by (simp add: ordered_def keys_def map_erase_def sorted_filter distinct_map_filter)


lemma keys_map_assign [simp]: "keys (map_assign k v data) = keys data"
  by (induction data) (auto simp: map_assign_def)

lemma map_find_map_assign:
  "map_find (map_assign k v data) k' =
     (if k' = k \<and> map_find data k \<noteq> None then Some v else map_find data k')"
  by (induction data) (auto simp: map_find_def map_assign_def)

lemma last_keys_Max:
  "ordered data \<Longrightarrow> data \<noteq> [] \<Longrightarrow> fst (last data) = Max (set (keys data))"
proof (induction data)
  case Nil
  then show ?case by simp
next
  case (Cons e data)
  show ?case
  proof (cases "data = []")
    case True
    then show ?thesis by simp
  next
    case False
    from Cons.prems have lt: "\<forall>k \<in> set (keys data). fst e < k" and ord: "ordered data"
      by (simp_all add: ordered_Cons)
    from False have ne: "set (keys data) \<noteq> {}"
      by (simp add: keys_def)
    have "fst e < Max (set (keys data))"
      using lt ne by simp
    then have "Max (insert (fst e) (set (keys data))) = Max (set (keys data))"
      using ne by (simp add: max_def less_imp_le)
    with Cons.IH [OF ord False] False show ?thesis
      by simp
  qed
qed


section \<open>Handle allocation\<close>

lemma below_SIZE_MAX: "k < SIZE_MAX \<longleftrightarrow> k \<noteq> - 1"
  by (simp add: SIZE_MAX_def word_order.not_eq_extremum)

lemma word_succ_greater: "(x::size_t) \<noteq> - 1 \<Longrightarrow> x < x + 1"
  by (metis inc_less_eq_triv_imp linorder_less_linear word_le_less_eq)

lemma unat_succ: "(x::size_t) \<noteq> - 1 \<Longrightarrow> unat (x + 1) = Suc (unat x)"
  by (simp add: add.commute add_eq_0_iff unatSuc)

lemma keys_Nil_iff: "keys data = [] \<longleftrightarrow> data = []"
  by (simp add: keys_def)

lemma MonitorContainer_place_eq: "MonitorContainer_place mon = Container_place (Addr mon)"
  by (rule ext) (simp add: MonitorContainer_place_def Container_place_def)

text \<open>Below \<open>SIZE_MAX\<close> the handle \<^verbatim>\<open>place\<close> computes lies above every key of the map.\<close>

lemma next_offset_above:
  assumes "ordered data" and "\<forall>k\<in>set (keys data). k \<noteq> - 1"
  shows "\<forall>k\<in>set (keys data). k < (if data \<noteq> [] then fst (last data) else 0) + 1"
proof (cases "data = []")
  case True
  then show ?thesis by simp
next
  case False
  then have ne: "set (keys data) \<noteq> {}"
    by (simp add: keys_Nil_iff)
  have last: "fst (last data) = Max (set (keys data))"
    using assms(1) False by (rule last_keys_Max)
  have "Max (set (keys data)) \<in> set (keys data)"
    using ne by (intro Max_in) simp_all
  with assms(2) have "Max (set (keys data)) \<noteq> - 1"
    by blast
  then have "Max (set (keys data)) < Max (set (keys data)) + 1"
    by (rule word_succ_greater)
  moreover have "k \<le> Max (set (keys data))" if "k \<in> set (keys data)" for k
    using that by (intro Max_ge) simp_all
  ultimately have "\<forall>k\<in>set (keys data). k < Max (set (keys data)) + 1"
    by (blast intro: order.strict_trans1)
  then show ?thesis
    using False last by simp
qed

lemma Container_place_fresh:
  assumes "ordered data" and "\<forall>k\<in>set (keys data). k \<noteq> - 1"
  shows "map_find data (fst (Container_place dflt data)) = None"
proof -
  have "fst (Container_place dflt data) \<notin> set (keys data)"
    using next_offset_above [OF assms] by (auto simp: Container_place_def Let_def)
  then show ?thesis
    by (simp add: map_find_None_iff)
qed

lemma Container_place_unat:
  assumes "ordered data" and "\<forall>k\<in>set (keys data). k \<noteq> - 1"
  shows "unat (fst (Container_place dflt data)) =
           (if data = [] then 1 else unat (Max (set (keys data))) + 1)"
proof (cases "data = []")
  case True
  then show ?thesis by (simp add: Container_place_def)
next
  case False
  then have ne: "set (keys data) \<noteq> {}"
    by (simp add: keys_Nil_iff)
  have "Max (set (keys data)) \<in> set (keys data)"
    using ne by (intro Max_in) simp_all
  with assms(2) have "Max (set (keys data)) \<noteq> - 1"
    by blast
  then show ?thesis
    using False last_keys_Max [OF assms(1) False]
    by (simp add: Container_place_def Let_def unat_succ)
qed

lemma Container_place_stored:
  assumes "ordered data" and "\<forall>k\<in>set (keys data). k \<noteq> - 1"
  shows "map_find (snd (Container_place dflt data)) (fst (Container_place dflt data)) = Some dflt"
  using Container_place_fresh [OF assms, of dflt]
  by (simp add: Container_place_def Let_def map_find_map_insert)

lemma Container_place_others:
  "k \<noteq> fst (Container_place dflt data) \<Longrightarrow>
   map_find (snd (Container_place dflt data)) k = map_find data k"
  by (simp add: Container_place_def Let_def map_find_map_insert)

text \<open>
  C1, as the code has it. In a store (an ordered map, as every \<^verbatim>\<open>std::map\<close> is) whose
  largest live handle is below \<open>SIZE_MAX\<close>, \<^verbatim>\<open>Container::place\<close> and
  \<^verbatim>\<open>MonitorContainer::place\<close> return a handle whose value is one more than the largest live
  handle, and 1 when the store is empty; the new record (\<^verbatim>\<open>Type{}\<close>, or the new
  monitor) is stored under that handle, and every other handle maps to what it mapped to
  before.
\<close>

theorem place_next_handle:
  assumes "ordered data" and "\<forall>k\<in>set (keys data). k < SIZE_MAX"
    and "ordered monitors" and "\<forall>k\<in>set (keys monitors). k < SIZE_MAX"
  shows "unat (fst (Container_place dflt data)) =
           (if data = [] then 1 else unat (Max (set (keys data))) + 1)
       \<and> map_find (snd (Container_place dflt data)) (fst (Container_place dflt data)) = Some dflt
       \<and> (\<forall>k. k \<noteq> fst (Container_place dflt data) \<longrightarrow>
            map_find (snd (Container_place dflt data)) k = map_find data k)
       \<and> unat (fst (MonitorContainer_place mon monitors)) =
           (if monitors = [] then 1 else unat (Max (set (keys monitors))) + 1)
       \<and> map_find (snd (MonitorContainer_place mon monitors))
            (fst (MonitorContainer_place mon monitors)) = Some (Addr mon)
       \<and> (\<forall>k. k \<noteq> fst (MonitorContainer_place mon monitors) \<longrightarrow>
            map_find (snd (MonitorContainer_place mon monitors)) k = map_find monitors k)"
proof -
  have d: "\<forall>k\<in>set (keys data). k \<noteq> - 1" and m: "\<forall>k\<in>set (keys monitors). k \<noteq> - 1"
    using assms(2,4) by (simp_all add: below_SIZE_MAX)
  show ?thesis
    unfolding MonitorContainer_place_eq
    using Container_place_unat [OF assms(1) d] Container_place_unat [OF assms(3) m]
      Container_place_stored [OF assms(1) d] Container_place_stored [OF assms(3) m]
    by (simp add: Container_place_others)
qed

theorem place_next_handle_witness:
  "ordered [(1, [Null]), (3, [])] \<and> keys [(1, [Null]), (3, [])] = [1, 3]
   \<and> 1 < SIZE_MAX \<and> 3 < SIZE_MAX
   \<and> ordered [(2, Addr 9)] \<and> keys [(2, Addr 9)] = [2] \<and> 2 < SIZE_MAX
   \<and> Container_place [] [(1, [Null]), (3, [])] = (4, [(1, [Null]), (3, []), (4, [])])
   \<and> MonitorContainer_place 10 [(2, Addr 9)] = (3, [(2, Addr 9), (3, Addr 10)])
   \<and> unat (fst (Container_place [] [(1, [Null :: ptr]), (3, [])])) = unat (3 :: size_t) + 1
   \<and> map_find (snd (MonitorContainer_place 10 [(2, Addr 9)])) 3 = Some (Addr 10)"
  using place_next_handle [of "[(1, [Null]), (3, [])]" "[(2, Addr 9)]" "[]" 10]
  by (simp add: Container_place_def MonitorContainer_place_def map_insert_def map_find_def
      ordered_def below_SIZE_MAX)

text \<open>
  C1 as stated fails where the largest live handle is \<open>SIZE_MAX\<close>: \<^verbatim>\<open>lastOffset + 1\<close>
  wraps to 0, which is not one more than the largest handle, and when handle 0 is live the
  insertion does nothing, so the record under the returned handle is the old one.
\<close>

theorem place_wraps_counterexample:
  "ordered [(0, [Addr 7]), (SIZE_MAX, [])]
   \<and> Max (set (keys [(0, [Addr 7]), (SIZE_MAX, [])])) = SIZE_MAX
   \<and> fst (ObjectContainer_place [(0, [Addr 7]), (SIZE_MAX, [])]) = 0
   \<and> unat (fst (ObjectContainer_place [(0, [Addr 7]), (SIZE_MAX, [])]))
       \<noteq> unat (Max (set (keys [(0, [Addr 7]), (SIZE_MAX, [])]))) + 1
   \<and> map_find (snd (ObjectContainer_place [(0, [Addr 7]), (SIZE_MAX, [])]))
        (fst (ObjectContainer_place [(0, [Addr 7]), (SIZE_MAX, [])])) = Some [Addr 7]"
  by (simp add: ObjectContainer_place_def Container_place_def map_insert_def map_find_def
      ordered_def SIZE_MAX_def)

section \<open>Lookup of a handle that is not live\<close>

text \<open>
  C5, as the code has it. For a handle that is not live in the store (\<^verbatim>\<open>has\<close> is false),
  \<^verbatim>\<open>Container::find\<close> dereferences the end iterator of the map: the behaviour is
  undefined, and no \<open>NotFound\<close> error is raised.
\<close>

theorem find_absent_undefined:
  "\<not> Container_has data h \<Longrightarrow>
     Container_find data h = Undefined EndIteratorDeref \<and> Container_find data h \<noteq> Throws NotFound"
  by (simp add: Container_has_def Container_find_def)

theorem find_absent_undefined_witness:
  "\<not> Container_has [(1, (3 :: size_t, Addr 4)), (2, (0, Null))] 5
   \<and> Container_find [(1, (3 :: size_t, Addr 4)), (2, (0, Null))] 5 = Undefined EndIteratorDeref"
  using find_absent_undefined [of "[(1, (3 :: size_t, Addr 4)), (2, (0, Null))]" 5]
  by (simp add: Container_has_def map_find_def)

text \<open>C5 as stated fails: handle 2 is not live, and the lookup does not fail with \<open>NotFound\<close>.\<close>

theorem find_absent_counterexample:
  "\<not> Container_has [(1, [Null])] 2
   \<and> Container_find [(1, [Null])] 2 = Undefined EndIteratorDeref
   \<and> Container_find [(1, [Null])] 2 \<noteq> Throws NotFound"
  by (simp add: Container_has_def Container_find_def map_find_def)

section \<open>Monitor operations on other values and on instances without a monitor\<close>

text \<open>
  C6, as the code has it. For every value that is not an object reference,
  \<^verbatim>\<open>dynamic_cast<const JObject*>(ref)\<close> yields the null pointer and \<^verbatim>\<open>hasMonitor\<close> and
  \<^verbatim>\<open>findMonitor\<close> read \<^verbatim>\<open>offset\<close> through it: the behaviour is undefined, and no
  \<open>InvalidReferenceKind\<close> error is raised.
\<close>

theorem monitor_ops_on_non_object:
  "(\<forall>object. ref \<noteq> ObjectRef object) \<Longrightarrow>
     hasMonitor ref h = Undefined NullDeref \<and> findMonitor ref h = Undefined NullDeref
     \<and> hasMonitor ref h \<noteq> Throws InvalidReferenceKind
     \<and> findMonitor ref h \<noteq> Throws InvalidReferenceKind"
  by (cases ref) (simp_all add: hasMonitor_def findMonitor_def dynamic_cast_JObject_def)

theorem monitor_ops_on_non_object_witness:
  "(\<forall>object. Primitive 7 \<noteq> ObjectRef object)
   \<and> hasMonitor (Primitive 7)
        \<lparr>objectContainer = [], arrayContainer = [], monitorContainer = [(1, Addr 3)],
         buffers = Map.empty, live = {3}\<rparr> = Undefined NullDeref
   \<and> findMonitor (Primitive 7)
        \<lparr>objectContainer = [], arrayContainer = [], monitorContainer = [(1, Addr 3)],
         buffers = Map.empty, live = {3}\<rparr> = Undefined NullDeref"
  using monitor_ops_on_non_object [of "Primitive 7"
      "\<lparr>objectContainer = [], arrayContainer = [], monitorContainer = [(1, Addr 3)],
        buffers = Map.empty, live = {3}\<rparr>"]
  by simp

text \<open>
  C6 as stated fails: on a reference to the array with handle 1 neither operation fails
  with \<open>InvalidReferenceKind\<close>.
\<close>

theorem monitor_ops_on_array_counterexample:
  "hasMonitor (ArrayRef \<lparr>offset_arr = 1\<rparr>)
     \<lparr>objectContainer = [], arrayContainer = [(1, (0, Null))], monitorContainer = [],
      buffers = Map.empty, live = {}\<rparr> = Undefined NullDeref
   \<and> hasMonitor (ArrayRef \<lparr>offset_arr = 1\<rparr>)
     \<lparr>objectContainer = [], arrayContainer = [(1, (0, Null))], monitorContainer = [],
      buffers = Map.empty, live = {}\<rparr> \<noteq> Throws InvalidReferenceKind
   \<and> findMonitor (ArrayRef \<lparr>offset_arr = 1\<rparr>)
     \<lparr>objectContainer = [], arrayContainer = [(1, (0, Null))], monitorContainer = [],
      buffers = Map.empty, live = {}\<rparr> \<noteq> Throws InvalidReferenceKind"
  by (simp add: hasMonitor_def findMonitor_def dynamic_cast_JObject_def)

text \<open>
  C7, as the code has it. For every object reference whose handle is not live in the
  monitor store, \<^verbatim>\<open>findMonitor\<close> dereferences the end iterator of the map: the behaviour
  is undefined, and no \<open>NoMonitor\<close> error is raised. \<^verbatim>\<open>hasMonitor\<close> returns false there.
\<close>

theorem findMonitor_absent_undefined:
  "\<not> Container_has (monitorContainer h) (offset object) \<Longrightarrow>
     findMonitor (ObjectRef object) h = Undefined EndIteratorDeref
     \<and> findMonitor (ObjectRef object) h \<noteq> Throws NoMonitor
     \<and> hasMonitor (ObjectRef object) h = Returns False"
  by (simp add: findMonitor_def hasMonitor_def dynamic_cast_JObject_def Container_has_def
      Container_find_def)

theorem findMonitor_absent_undefined_witness:
  "\<not> Container_has [(1, Addr 3)] (offset \<lparr>offset = 2, jc = JavaClass ''A'' [] None\<rparr>)
   \<and> findMonitor (ObjectRef \<lparr>offset = 2, jc = JavaClass ''A'' [] None\<rparr>)
        \<lparr>objectContainer = [(1, []), (2, [])], arrayContainer = [],
         monitorContainer = [(1, Addr 3)], buffers = Map.empty, live = {3}\<rparr>
       = Undefined EndIteratorDeref"
  using findMonitor_absent_undefined [of
      "\<lparr>objectContainer = [(1, []), (2, [])], arrayContainer = [],
        monitorContainer = [(1, Addr 3)], buffers = Map.empty, live = {3}\<rparr>"
      "\<lparr>offset = 2, jc = JavaClass ''A'' [] None\<rparr>"]
  by (simp add: Container_has_def map_find_def)

text \<open>
  C7 as stated fails: the instance with handle 1 never had a monitor created, and
  \<^verbatim>\<open>findMonitor\<close> on it does not fail with \<open>NoMonitor\<close>.
\<close>

theorem findMonitor_no_monitor_counterexample:
  "findMonitor (ObjectRef \<lparr>offset = 1, jc = JavaClass ''A'' [] None\<rparr>)
     \<lparr>objectContainer = [(1, [])], arrayContainer = [], monitorContainer = [],
      buffers = Map.empty, live = {}\<rparr> = Undefined EndIteratorDeref
   \<and> findMonitor (ObjectRef \<lparr>offset = 1, jc = JavaClass ''A'' [] None\<rparr>)
     \<lparr>objectContainer = [(1, [])], arrayContainer = [], monitorContainer = [],
      buffers = Map.empty, live = {}\<rparr> \<noteq> Throws NoMonitor"
  by (simp add: findMonitor_def dynamic_cast_JObject_def Container_find_def map_find_def)

section \<open>Access by offset\<close>

lemma Container_find_Returns: "Container_find data k = Returns r \<longleftrightarrow> map_find data k = Some r"
  by (simp add: Container_find_def split: option.splits)

lemma Container_find_map_assign:
  "Container_find data k = Returns r \<Longrightarrow> Container_find (map_assign k r' data) k = Returns r'"
  by (simp add: Container_find_def map_find_map_assign split: option.splits)

lemma Container_find_map_assign_other:
  "k' \<noteq> k \<Longrightarrow> Container_find (map_assign k r' data) k' = Container_find data k'"
  by (simp add: Container_find_def map_find_map_assign)

lemma putFieldByOffset_Returns:
  assumes "Container_find (objectContainer h) (offset object) = Returns slots"
    and "unat i < length slots"
  shows "putFieldByOffset object i v h =
    Returns (h\<lparr>objectContainer :=
      map_assign (offset object) (slots[unat i := v]) (objectContainer h)\<rparr>)"
  using assms by (simp add: putFieldByOffset_def)

lemma putElement_Returns:
  assumes "Container_find (arrayContainer h) (offset_arr array) = Returns (n, Addr a)"
    and "buffers h a = Some elems" and "unat i < length elems"
  shows "putElement array i v h = Returns (h\<lparr>buffers := (buffers h)(a \<mapsto> elems[unat i := v])\<rparr>)"
  using assms by (simp add: putElement_def)

text \<open>
  C4. For a live object handle and a slot index below the record's slot count,
  \<^verbatim>\<open>putFieldByOffset\<close> returns and \<^verbatim>\<open>getFieldByOffset\<close> at the same handle and index then
  returns the value written. For a live array handle whose record points to a buffer of
  as many slots as its element count, and an index below that count, \<^verbatim>\<open>putElement\<close>
  returns and \<^verbatim>\<open>getElement\<close> at the same handle and index then returns the value written.
\<close>

theorem put_then_get:
  "(Container_find (objectContainer h) (offset object) = Returns slots \<and> unat i < length slots
     \<longrightarrow> (\<exists>h'. putFieldByOffset object i v h = Returns h'
              \<and> getFieldByOffset object i h' = Returns v))
   \<and> (Container_find (arrayContainer h) (offset_arr array) = Returns (n, Addr a)
       \<and> buffers h a = Some elems \<and> length elems = unat n \<and> index < n
     \<longrightarrow> (\<exists>h'. putElement array index v h = Returns h'
              \<and> getElement array index h' = Returns v))"
proof (intro conjI impI)
  assume "Container_find (objectContainer h) (offset object) = Returns slots \<and> unat i < length slots"
  then have f: "Container_find (objectContainer h) (offset object) = Returns slots"
    and b: "unat i < length slots"
    by simp_all
  have "getFieldByOffset object i
      (h\<lparr>objectContainer :=
        map_assign (offset object) (slots[unat i := v]) (objectContainer h)\<rparr>) = Returns v"
    using b by (simp add: getFieldByOffset_def Container_find_map_assign [OF f])
  with putFieldByOffset_Returns [OF f b]
  show "\<exists>h'. putFieldByOffset object i v h = Returns h' \<and> getFieldByOffset object i h' = Returns v"
    by simp
next
  assume "Container_find (arrayContainer h) (offset_arr array) = Returns (n, Addr a)
       \<and> buffers h a = Some elems \<and> length elems = unat n \<and> index < n"
  then have f: "Container_find (arrayContainer h) (offset_arr array) = Returns (n, Addr a)"
    and m: "buffers h a = Some elems" and b: "unat index < length elems"
    by (simp_all add: word_less_nat_alt)
  have "getElement array index (h\<lparr>buffers := (buffers h)(a \<mapsto> elems[unat index := v])\<rparr>)
      = Returns v"
    using f b by (simp add: getElement_def)
  with putElement_Returns [OF f m b]
  show "\<exists>h'. putElement array index v h = Returns h' \<and> getElement array index h' = Returns v"
    by simp
qed


theorem put_then_get_witness:
  "Container_find [(1, [Null, Null])] (offset \<lparr>offset = 1, jc = JavaClass ''A'' [] None\<rparr>)
     = Returns [Null, Null]
   \<and> unat (1 :: size_t) < length [Null, Null :: ptr]
   \<and> length [Null, Null :: ptr] = unat (2 :: size_t) \<and> (1 :: size_t) < 2
   \<and> (\<exists>h'. putFieldByOffset \<lparr>offset = 1, jc = JavaClass ''A'' [] None\<rparr> 1 (Addr 9)
          \<lparr>objectContainer = [(1, [Null, Null])], arrayContainer = [(1, (2, Addr 50))],
           monitorContainer = [], buffers = [50 \<mapsto> [Null, Null]], live = {9}\<rparr> = Returns h'
        \<and> getFieldByOffset \<lparr>offset = 1, jc = JavaClass ''A'' [] None\<rparr> 1 h' = Returns (Addr 9))
   \<and> (\<exists>h'. putElement \<lparr>offset_arr = 1\<rparr> 1 (Addr 9)
          \<lparr>objectContainer = [(1, [Null, Null])], arrayContainer = [(1, (2, Addr 50))],
           monitorContainer = [], buffers = [50 \<mapsto> [Null, Null]], live = {9}\<rparr> = Returns h'
        \<and> getElement \<lparr>offset_arr = 1\<rparr> 1 h' = Returns (Addr 9))"
  using put_then_get [of
      "\<lparr>objectContainer = [(1, [Null, Null])], arrayContainer = [(1, (2, Addr 50))],
        monitorContainer = [], buffers = [50 \<mapsto> [Null, Null]], live = {9}\<rparr>"
      "\<lparr>offset = 1, jc = JavaClass ''A'' [] None\<rparr>" "[Null, Null]" 1 "Addr 9"
      "\<lparr>offset_arr = 1\<rparr>" 2 50 "[Null, Null]" 1]
  by (simp add: Container_find_def map_find_def)

section \<open>What a write leaves unchanged\<close>

lemma exclusive_owner:
  assumes "exclusive data" and "map_find data k = Some (n, Addr a)"
    and "map_find data k' = Some (n', Addr a)"
  shows "k' = k"
proof -
  let ?es = "filter (\<lambda>e. snd (snd e) \<noteq> Null) data"
  have k: "(k, (n, Addr a)) \<in> set ?es" and k': "(k', (n', Addr a)) \<in> set ?es"
    using assms(2,3) by (auto simp: map_find_def dest: map_of_SomeD)
  have inj: "inj_on (snd \<circ> snd) (set ?es)"
    using assms(1) by (simp add: exclusive_def distinct_map)
  have eq: "(snd \<circ> snd) (k', (n', Addr a)) = (snd \<circ> snd) (k, (n, Addr a))"
    by simp
  have "(k', (n', Addr a)) = (k, (n, Addr a))"
    by (rule inj_onD [OF inj eq k' k])
  then show ?thesis by simp
qed

lemma getElement_other_buffer:
  assumes "exclusive (arrayContainer h)"
    and "Container_find (arrayContainer h) (offset_arr array) = Returns (n, Addr a)"
    and "offset_arr other \<noteq> offset_arr array"
  shows "getElement other j (h\<lparr>buffers := (buffers h)(a \<mapsto> es)\<rparr>) = getElement other j h"
proof (cases "Container_find (arrayContainer h) (offset_arr other)")
  case (Returns r)
  obtain n' p where r: "r = (n', p)" by (cases r)
  show ?thesis
  proof (cases p)
    case Null
    with Returns r show ?thesis by (simp add: getElement_def)
  next
    case (Addr a')
    have "a' \<noteq> a"
    proof
      assume "a' = a"
      with Returns r Addr assms(2)
      have "map_find (arrayContainer h) (offset_arr other) = Some (n', Addr a)"
        and "map_find (arrayContainer h) (offset_arr array) = Some (n, Addr a)"
        by (simp_all add: Container_find_Returns)
      from exclusive_owner [OF assms(1) this(2) this(1)] assms(3) show False
        by simp
    qed
    with Returns r Addr show ?thesis by (simp add: getElement_def)
  qed
next
  case (Throws e)
  then show ?thesis by (simp add: getElement_def)
next
  case (Undefined f)
  then show ?thesis by (simp add: getElement_def)
qed

lemma getFieldByOffset_other_slot:
  assumes "Container_find (objectContainer h) (offset object) = Returns slots" and "j \<noteq> i"
  shows "getFieldByOffset object j
      (h\<lparr>objectContainer :=
        map_assign (offset object) (slots[unat i := v]) (objectContainer h)\<rparr>)
    = getFieldByOffset object j h"
proof -
  have "unat j \<noteq> unat i"
    using assms(2) by (simp add: word_unat_eq_iff)
  then show ?thesis
    using assms(1) by (simp add: getFieldByOffset_def Container_find_map_assign [OF assms(1)])
qed

lemma getElement_other_slot:
  assumes "Container_find (arrayContainer h) (offset_arr array) = Returns (n, Addr a)"
    and "buffers h a = Some elems" and "j \<noteq> i"
  shows "getElement array j (h\<lparr>buffers := (buffers h)(a \<mapsto> elems[unat i := v])\<rparr>)
    = getElement array j h"
proof -
  have "unat j \<noteq> unat i"
    using assms(3) by (simp add: word_unat_eq_iff)
  then show ?thesis
    using assms(1,2) by (simp add: getElement_def)
qed

text \<open>
  C10. \<^verbatim>\<open>putFieldByOffset\<close> on a live object handle and an in-bounds slot \<open>i\<close> replaces
  slot \<open>i\<close> of that record and nothing else: every other slot reads as before, every
  other handle of the object store maps to the record it mapped to, no handle is added or
  removed, and the array store, the monitor store and the free store are the same.
  \<^verbatim>\<open>putElement\<close> on a live array handle and an in-bounds index replaces that slot of the
  record's buffer and nothing else: every other slot of the array reads as before, every
  other buffer is the same, the three stores are the same, and every element of every
  other array of the store reads as before, no two records sharing a buffer.
\<close>

theorem put_frame:
  "(Container_find (objectContainer h) (offset object) = Returns slots \<and> unat i < length slots
     \<longrightarrow> (\<exists>h'. putFieldByOffset object i v h = Returns h'
          \<and> Container_find (objectContainer h') (offset object) = Returns (slots[unat i := v])
          \<and> (\<forall>j. j \<noteq> i \<longrightarrow> getFieldByOffset object j h' = getFieldByOffset object j h)
          \<and> (\<forall>k. k \<noteq> offset object \<longrightarrow>
                Container_find (objectContainer h') k = Container_find (objectContainer h) k)
          \<and> keys (objectContainer h') = keys (objectContainer h)
          \<and> arrayContainer h' = arrayContainer h \<and> monitorContainer h' = monitorContainer h
          \<and> buffers h' = buffers h \<and> live h' = live h))
   \<and> (Container_find (arrayContainer h) (offset_arr array) = Returns (n, Addr a)
       \<and> buffers h a = Some elems \<and> length elems = unat n \<and> index < n
     \<longrightarrow> (\<exists>h'. putElement array index v h = Returns h'
          \<and> buffers h' a = Some (elems[unat index := v])
          \<and> (\<forall>j. j \<noteq> index \<longrightarrow> getElement array j h' = getElement array j h)
          \<and> (\<forall>a'. a' \<noteq> a \<longrightarrow> buffers h' a' = buffers h a')
          \<and> arrayContainer h' = arrayContainer h \<and> objectContainer h' = objectContainer h
          \<and> monitorContainer h' = monitorContainer h \<and> live h' = live h
          \<and> (exclusive (arrayContainer h) \<longrightarrow>
                (\<forall>other j. offset_arr other \<noteq> offset_arr array \<longrightarrow>
                   getElement other j h' = getElement other j h))))"
proof (intro conjI impI)
  assume "Container_find (objectContainer h) (offset object) = Returns slots \<and> unat i < length slots"
  then have f: "Container_find (objectContainer h) (offset object) = Returns slots"
    and b: "unat i < length slots"
    by simp_all
  show "\<exists>h'. putFieldByOffset object i v h = Returns h'
          \<and> Container_find (objectContainer h') (offset object) = Returns (slots[unat i := v])
          \<and> (\<forall>j. j \<noteq> i \<longrightarrow> getFieldByOffset object j h' = getFieldByOffset object j h)
          \<and> (\<forall>k. k \<noteq> offset object \<longrightarrow>
                Container_find (objectContainer h') k = Container_find (objectContainer h) k)
          \<and> keys (objectContainer h') = keys (objectContainer h)
          \<and> arrayContainer h' = arrayContainer h \<and> monitorContainer h' = monitorContainer h
          \<and> buffers h' = buffers h \<and> live h' = live h"
    unfolding putFieldByOffset_Returns [OF f b]
    by (simp add: Container_find_map_assign [OF f] Container_find_map_assign_other
        getFieldByOffset_other_slot [OF f])
next
  assume "Container_find (arrayContainer h) (offset_arr array) = Returns (n, Addr a)
       \<and> buffers h a = Some elems \<and> length elems = unat n \<and> index < n"
  then have f: "Container_find (arrayContainer h) (offset_arr array) = Returns (n, Addr a)"
    and m: "buffers h a = Some elems" and b: "unat index < length elems"
    by (simp_all add: word_less_nat_alt)
  show "\<exists>h'. putElement array index v h = Returns h'
          \<and> buffers h' a = Some (elems[unat index := v])
          \<and> (\<forall>j. j \<noteq> index \<longrightarrow> getElement array j h' = getElement array j h)
          \<and> (\<forall>a'. a' \<noteq> a \<longrightarrow> buffers h' a' = buffers h a')
          \<and> arrayContainer h' = arrayContainer h \<and> objectContainer h' = objectContainer h
          \<and> monitorContainer h' = monitorContainer h \<and> live h' = live h
          \<and> (exclusive (arrayContainer h) \<longrightarrow>
                (\<forall>other j. offset_arr other \<noteq> offset_arr array \<longrightarrow>
                   getElement other j h' = getElement other j h))"
    unfolding putElement_Returns [OF f m b]
    by (simp add: getElement_other_slot [OF f m] getElement_other_buffer [OF _ f])
qed

theorem put_frame_witness:
  "Container_find [(1, [Null, Null]), (2, [Addr 5])]
       (offset \<lparr>offset = 1, jc = JavaClass ''A'' [] None\<rparr>) = Returns [Null, Null]
   \<and> unat (1 :: size_t) < length [Null, Null :: ptr]
   \<and> Container_find [(1, (2, Addr 50)), (2, (1, Addr 60))]
       (offset_arr \<lparr>offset_arr = 1\<rparr>) = Returns (2, Addr 50)
   \<and> exclusive [(1, (2, Addr 50)), (2, (1, Addr 60))]
   \<and> (\<exists>h'. putFieldByOffset \<lparr>offset = 1, jc = JavaClass ''A'' [] None\<rparr> 1 (Addr 9)
          \<lparr>objectContainer = [(1, [Null, Null]), (2, [Addr 5])],
           arrayContainer = [(1, (2, Addr 50)), (2, (1, Addr 60))],
           monitorContainer = [(1, Addr 70)],
           buffers = [50 \<mapsto> [Null, Null], 60 \<mapsto> [Addr 6]], live = {5, 6, 9, 70}\<rparr> = Returns h'
        \<and> Container_find (objectContainer h') 1 = Returns [Null, Addr 9]
        \<and> Container_find (objectContainer h') 2 = Returns [Addr 5]
        \<and> arrayContainer h' = [(1, (2, Addr 50)), (2, (1, Addr 60))]
        \<and> monitorContainer h' = [(1, Addr 70)])
   \<and> (\<exists>h'. putElement \<lparr>offset_arr = 1\<rparr> 1 (Addr 9)
          \<lparr>objectContainer = [(1, [Null, Null]), (2, [Addr 5])],
           arrayContainer = [(1, (2, Addr 50)), (2, (1, Addr 60))],
           monitorContainer = [(1, Addr 70)],
           buffers = [50 \<mapsto> [Null, Null], 60 \<mapsto> [Addr 6]], live = {5, 6, 9, 70}\<rparr> = Returns h'
        \<and> buffers h' 50 = Some [Null, Addr 9]
        \<and> getElement \<lparr>offset_arr = 2\<rparr> 0 h' = Returns (Addr 6)
        \<and> objectContainer h' = [(1, [Null, Null]), (2, [Addr 5])]
        \<and> monitorContainer h' = [(1, Addr 70)])"
  using put_frame [of
      "\<lparr>objectContainer = [(1, [Null, Null]), (2, [Addr 5])],
        arrayContainer = [(1, (2, Addr 50)), (2, (1, Addr 60))],
        monitorContainer = [(1, Addr 70)],
        buffers = [50 \<mapsto> [Null, Null], 60 \<mapsto> [Addr 6]], live = {5, 6, 9, 70}\<rparr>"
      "\<lparr>offset = 1, jc = JavaClass ''A'' [] None\<rparr>" "[Null, Null]" 1 "Addr 9"
      "\<lparr>offset_arr = 1\<rparr>" 2 50 "[Null, Null]" 1]
  by (simp add: Container_find_def map_find_def exclusive_def putFieldByOffset_def
      putElement_def getElement_def map_assign_def)

section \<open>Creating and finding monitors\<close>











section \<open>Removal and the slot values\<close>

text \<open>
  C9 on the code. The object store holds the record \<open>[Addr 10, Addr 11]\<close> under handle 1
  and the array store a one-element array with buffer 50 and element \<open>Addr 12\<close>; all
  three values are live. \<^verbatim>\<open>removeObject(1)\<close> and \<^verbatim>\<open>removeArray(1)\<close> erase the entry and
  leave every slot value (and the buffer) allocated, where the destructors of the two
  stores delete them.
\<close>

theorem remove_keeps_slot_values:
  "objectContainer (removeObject 1
      \<lparr>objectContainer = [(1, [Addr 10, Addr 11])], arrayContainer = [(1, (1, Addr 50))],
       monitorContainer = [], buffers = [50 \<mapsto> [Addr 12]], live = {10, 11, 12}\<rparr>) = []
   \<and> live (removeObject 1
      \<lparr>objectContainer = [(1, [Addr 10, Addr 11])], arrayContainer = [(1, (1, Addr 50))],
       monitorContainer = [], buffers = [50 \<mapsto> [Addr 12]], live = {10, 11, 12}\<rparr>)
       = {10, 11, 12}
   \<and> ObjectContainer_dtor [(1, [Addr 10, Addr 11])] {10, 11, 12} = Returns {12}
   \<and> arrayContainer (removeArray 1
      \<lparr>objectContainer = [(1, [Addr 10, Addr 11])], arrayContainer = [(1, (1, Addr 50))],
       monitorContainer = [], buffers = [50 \<mapsto> [Addr 12]], live = {10, 11, 12}\<rparr>) = []
   \<and> live (removeArray 1
      \<lparr>objectContainer = [(1, [Addr 10, Addr 11])], arrayContainer = [(1, (1, Addr 50))],
       monitorContainer = [], buffers = [50 \<mapsto> [Addr 12]], live = {10, 11, 12}\<rparr>)
       = {10, 11, 12}
   \<and> buffers (removeArray 1
      \<lparr>objectContainer = [(1, [Addr 10, Addr 11])], arrayContainer = [(1, (1, Addr 50))],
       monitorContainer = [], buffers = [50 \<mapsto> [Addr 12]], live = {10, 11, 12}\<rparr>) 50
       = Some [Addr 12]
   \<and> ArrayContainer_dtor [(1, (1, Addr 50))] [50 \<mapsto> [Addr 12]] {10, 11, 12}
       = Returns (Map.empty, {10, 11})"
  by (simp add: removeObject_def removeArray_def Container_remove_def map_find_def map_erase_def
      insert_Diff_if)

section \<open>Handles stay unique\<close>

lemma unat_of_nat_size_t: "n < 2 ^ 64 \<Longrightarrow> unat (of_nat n :: size_t) = n"
  by (simp add: unat_of_nat)

lemma unat_minus_one_size_t: "unat (- 1 :: size_t) = 2 ^ 64 - 1"
  by (simp add: unsigned_minus_1_eq_mask mask_eq_exp_minus_1)

lemma ordered_Container_place: "ordered data \<Longrightarrow> ordered (snd (Container_place dflt data))"
  by (simp add: Container_place_def Let_def ordered_map_insert)

lemma ordered_Container_remove: "ordered data \<Longrightarrow> ordered (Container_remove k data)"
  by (simp add: Container_remove_def ordered_map_erase)

lemma ordered_run_ops: "ordered data \<Longrightarrow> ordered (run_ops dflt ops data)"
proof (induction ops arbitrary: data)
  case Nil
  then show ?case by simp
next
  case (Cons x ops)
  then show ?case
    by (cases x) (simp_all add: ordered_Container_place ordered_Container_remove)
qed

lemma ordered_run_monitor_ops: "ordered data \<Longrightarrow> ordered (run_monitor_ops ops data)"
proof (induction ops arbitrary: data)
  case Nil
  then show ?case by simp
next
  case (Cons x ops)
  then show ?case
    by (cases x)
      (simp_all add: MonitorContainer_place_eq ordered_Container_place ordered_Container_remove)
qed

text \<open>When \<open>SIZE_MAX\<close> is live, \<^verbatim>\<open>place\<close> returns 0.\<close>

lemma Container_place_wraps:
  assumes "ordered data" and "- 1 \<in> set (keys data)"
  shows "fst (Container_place dflt data) = 0"
proof -
  from assms(2) have ne: "data \<noteq> []" by auto
  have "Max (set (keys data)) = - 1"
    using assms(2) by (intro Max_eqI) simp_all
  with last_keys_Max [OF assms(1) ne] show ?thesis
    using ne by (simp add: Container_place_def)
qed

lemma Container_place_live_iff:
  assumes "ordered data"
  shows "Container_has data (fst (Container_place dflt data)) \<longleftrightarrow>
           Container_has data 0 \<and> Container_has data SIZE_MAX"
proof (cases "- 1 \<in> set (keys data)")
  case True
  with Container_place_wraps [OF assms True, of dflt] show ?thesis
    by (simp add: Container_has_def map_find_None_iff SIZE_MAX_def)
next
  case False
  then have "\<forall>k\<in>set (keys data). k \<noteq> - 1" by blast
  from Container_place_fresh [OF assms this, of dflt] False show ?thesis
    by (simp add: Container_has_def map_find_None_iff SIZE_MAX_def)
qed

text \<open>After \<open>n\<close> operations no handle exceeds \<open>n\<close>, as long as \<open>n\<close> is a \<^verbatim>\<open>size_t\<close>.\<close>

lemma keys_Container_place:
  "set (keys (snd (Container_place dflt data))) =
     insert (fst (Container_place dflt data)) (set (keys data))"
  by (simp add: Container_place_def Let_def keys_map_insert)

lemma keys_Container_remove: "set (keys (Container_remove k data)) \<subseteq> set (keys data)"
  by (auto simp: Container_remove_def keys_map_erase)

lemma Container_place_bound:
  assumes "ordered data" and "\<forall>k\<in>set (keys data). unat k \<le> n" and "Suc n < 2 ^ 64"
  shows "\<forall>k\<in>set (keys (snd (Container_place dflt data))). unat k \<le> Suc n"
proof -
  have nm: "\<forall>k\<in>set (keys data). k \<noteq> - 1"
  proof
    fix k assume "k \<in> set (keys data)"
    with assms(2) have "unat k \<le> n" by blast
    with assms(3) show "k \<noteq> - 1"
      by (auto simp: unat_minus_one_size_t)
  qed
  have "unat (fst (Container_place dflt data)) \<le> Suc n"
  proof (cases "data = []")
    case True
    then show ?thesis by (simp add: Container_place_def)
  next
    case False
    then have "Max (set (keys data)) \<in> set (keys data)"
      by (intro Max_in) (simp_all add: keys_Nil_iff)
    with assms(2) have "unat (Max (set (keys data))) \<le> n" by blast
    with Container_place_unat [OF assms(1) nm, of dflt] False show ?thesis by simp
  qed
  with assms(2) show ?thesis
    by (auto simp: keys_Container_place le_SucI)
qed

lemma run_ops_bound:
  "ordered data \<Longrightarrow> \<forall>k\<in>set (keys data). unat k \<le> n \<Longrightarrow> n + length ops < 2 ^ 64 \<Longrightarrow>
   \<forall>k\<in>set (keys (run_ops dflt ops data)). unat k \<le> n + length ops"
proof (induction ops arbitrary: data n)
  case Nil
  then show ?case by simp
next
  case (Cons x ops)
  show ?case
  proof (cases x)
    case Place
    have "\<forall>k\<in>set (keys (snd (Container_place dflt data))). unat k \<le> Suc n"
      using Cons.prems by (intro Container_place_bound) simp_all
    from Cons.IH [OF ordered_Container_place [OF Cons.prems(1)] this] Cons.prems(3) Place
    show ?thesis by simp
  next
    case (Remove k')
    have "\<forall>k\<in>set (keys (Container_remove k' data)). unat k \<le> Suc n"
      using Cons.prems(2) keys_Container_remove [of k' data] by (auto simp: le_SucI)
    from Cons.IH [OF ordered_Container_remove [OF Cons.prems(1)] this] Cons.prems(3) Remove
    show ?thesis by simp
  qed
qed

lemma run_monitor_ops_bound:
  "ordered data \<Longrightarrow> \<forall>k\<in>set (keys data). unat k \<le> n \<Longrightarrow> n + length ops < 2 ^ 64 \<Longrightarrow>
   \<forall>k\<in>set (keys (run_monitor_ops ops data)). unat k \<le> n + length ops"
proof (induction ops arbitrary: data n)
  case Nil
  then show ?case by simp
next
  case (Cons x ops)
  show ?case
  proof (cases x)
    case (MonitorPlace mon)
    have "\<forall>k\<in>set (keys (snd (Container_place (Addr mon) data))). unat k \<le> Suc n"
      using Cons.prems by (intro Container_place_bound) simp_all
    from Cons.IH [OF ordered_Container_place [OF Cons.prems(1)] this] Cons.prems(3) MonitorPlace
    show ?thesis by (simp add: MonitorContainer_place_eq)
  next
    case (MonitorRemove k')
    have "\<forall>k\<in>set (keys (Container_remove k' data)). unat k \<le> Suc n"
      using Cons.prems(2) keys_Container_remove [of k' data] by (auto simp: le_SucI)
    from Cons.IH [OF ordered_Container_remove [OF Cons.prems(1)] this] Cons.prems(3) MonitorRemove
    show ?thesis by simp
  qed
qed

lemma short_run_below_SIZE_MAX:
  assumes "\<forall>k\<in>set (keys data). unat k \<le> length ops" and "length ops < 2 ^ 64 - 1"
  shows "\<not> Container_has data SIZE_MAX"
proof
  assume "Container_has data SIZE_MAX"
  then have "- 1 \<in> set (keys data)"
    by (simp add: Container_has_def map_find_None_iff SIZE_MAX_def)
  with assms(1) have "unat (- 1 :: size_t) \<le> length ops" by blast
  with assms(2) show False
    by (simp add: unat_minus_one_size_t)
qed


text \<open>
  C2, as the code has it. Starting from the empty store, after every sequence of
  \<^verbatim>\<open>place\<close> and \<^verbatim>\<open>remove\<close> operations, and after every prefix of it, no two entries of
  the store have the same handle. The handle the next \<^verbatim>\<open>place\<close> returns is the handle
  of a live record exactly when handle 0 and handle \<open>SIZE_MAX\<close> are both live, which
  takes a wrapped handle; in particular it is never live after fewer than \<open>2 ^ 64 - 1\<close>
  operations. The same holds for the monitor store with \<^verbatim>\<open>MonitorContainer::place\<close>.
\<close>

theorem handles_unique:
  "(\<forall>n. distinct (keys (run_ops dflt (take n ops) [])))
   \<and> (Container_has (run_ops dflt ops []) (fst (Container_place dflt (run_ops dflt ops [])))
        \<longleftrightarrow> Container_has (run_ops dflt ops []) 0
            \<and> Container_has (run_ops dflt ops []) SIZE_MAX)
   \<and> (length ops < 2 ^ 64 - 1 \<longrightarrow>
        \<not> Container_has (run_ops dflt ops []) (fst (Container_place dflt (run_ops dflt ops []))))
   \<and> (\<forall>n. distinct (keys (run_monitor_ops (take n mops) [])))
   \<and> (Container_has (run_monitor_ops mops [])
          (fst (MonitorContainer_place mon (run_monitor_ops mops [])))
        \<longleftrightarrow> Container_has (run_monitor_ops mops []) 0
            \<and> Container_has (run_monitor_ops mops []) SIZE_MAX)
   \<and> (length mops < 2 ^ 64 - 1 \<longrightarrow>
        \<not> Container_has (run_monitor_ops mops [])
            (fst (MonitorContainer_place mon (run_monitor_ops mops []))))"
proof -
  have o: "ordered (run_ops dflt xs [])" for xs
    by (rule ordered_run_ops) simp
  have m: "ordered (run_monitor_ops xs [])" for xs
    by (rule ordered_run_monitor_ops) simp
  have d1: "\<forall>n. distinct (keys (run_ops dflt (take n ops) []))"
    using o by (simp add: ordered_def)
  have d2: "\<forall>n. distinct (keys (run_monitor_ops (take n mops) []))"
    using m by (simp add: ordered_def)
  note i1 = Container_place_live_iff [OF o [of ops], of dflt]
  note i2 = Container_place_live_iff [OF m [of mops], of "Addr mon"]
  have s1: "\<not> Container_has (run_ops dflt ops []) SIZE_MAX" if "length ops < 2 ^ 64 - 1"
  proof -
    have "\<forall>k\<in>set (keys (run_ops dflt ops [])). unat k \<le> 0 + length ops"
      using that by (intro run_ops_bound) simp_all
    then show ?thesis
      using that by (intro short_run_below_SIZE_MAX [of _ ops]) simp_all
  qed
  have s2: "\<not> Container_has (run_monitor_ops mops []) SIZE_MAX" if "length mops < 2 ^ 64 - 1"
  proof -
    have "\<forall>k\<in>set (keys (run_monitor_ops mops [])). unat k \<le> 0 + length mops"
      using that by (intro run_monitor_ops_bound) simp_all
    then show ?thesis
      using that by (intro short_run_below_SIZE_MAX [of _ mops]) simp_all
  qed
  show ?thesis
    unfolding MonitorContainer_place_eq
    using d1 d2 i1 i2 s1 s2 by blast
qed

theorem handles_unique_witness:
  "run_ops [Null] [Place, Place, Remove 1, Place] [] = [(2, [Null]), (3, [Null])]
   \<and> distinct (keys (run_ops [Null] [Place, Place, Remove 1, Place] []))
   \<and> length [Place, Place, Remove 1, Place] < 2 ^ 64 - 1
   \<and> fst (Container_place [Null] (run_ops [Null] [Place, Place, Remove 1, Place] [])) = 4
   \<and> \<not> Container_has (run_ops [Null] [Place, Place, Remove 1, Place] [])
        (fst (Container_place [Null] (run_ops [Null] [Place, Place, Remove 1, Place] [])))
   \<and> run_monitor_ops [MonitorPlace 70, MonitorRemove 1, MonitorPlace 71] [] = [(1, Addr 71)]
   \<and> length [MonitorPlace 70, MonitorRemove 1, MonitorPlace 71] < 2 ^ 64 - 1
   \<and> \<not> Container_has (run_monitor_ops [MonitorPlace 70, MonitorRemove 1, MonitorPlace 71] [])
        (fst (MonitorContainer_place 72
          (run_monitor_ops [MonitorPlace 70, MonitorRemove 1, MonitorPlace 71] [])))"
  using handles_unique [of "[Null]" "[Place, Place, Remove 1, Place]"
      "[MonitorPlace 70, MonitorRemove 1, MonitorPlace 71]" 72]
  by (simp add: Container_place_def MonitorContainer_place_def Container_remove_def
      Container_has_def map_insert_def map_erase_def map_find_def)

subsection \<open>A run that wraps the handle with two live records\<close>

lemma run_ops_append: "run_ops dflt (xs @ ys) data = run_ops dflt ys (run_ops dflt xs data)"
proof (induction xs arbitrary: data)
  case Nil
  then show ?case by simp
next
  case (Cons x xs)
  then show ?case by (cases x) simp_all
qed

lemma place_single: "a \<noteq> - 1 \<Longrightarrow> snd (Container_place dflt [(a, dflt)]) = [(a, dflt), (a + 1, dflt)]"
  using word_succ_greater [of a]
  by (auto simp: Container_place_def map_insert_def map_find_def)

lemma place_remove_single:
  "a \<noteq> - 1 \<Longrightarrow> Container_remove a (snd (Container_place dflt [(a, dflt)])) = [(a + 1, dflt)]"
  by (simp add: place_single Container_remove_def map_find_def map_erase_def)

lemma of_nat_below_top:
  assumes "n < 2 ^ 64 - 1"
  shows "(of_nat n :: size_t) \<noteq> - 1"
proof
  assume "(of_nat n :: size_t) = - 1"
  then have "unat (of_nat n :: size_t) = unat (- 1 :: size_t)"
    by simp
  with assms show False
    by (simp add: unat_of_nat_size_t unat_minus_one_size_t)
qed

lemma run_rolling_ops:
  "n < 2 ^ 64 - 1 \<Longrightarrow> run_ops dflt (rolling_ops n) [] = [(of_nat (Suc n), dflt)]"
proof (induction n)
  case 0
  then show ?case
    by (simp add: Container_place_def map_insert_def map_find_def)
next
  case (Suc n)
  let ?a = "of_nat (Suc n) :: size_t"
  from Suc have S: "run_ops dflt (rolling_ops n) [] = [(?a, dflt)]"
    by simp
  have a: "?a \<noteq> - 1"
    using Suc.prems by (intro of_nat_below_top) simp
  have "run_ops dflt (rolling_ops (Suc n)) []
      = Container_remove ?a (snd (Container_place dflt [(?a, dflt)]))"
    by (simp only: rolling_ops.simps run_ops_append run_ops.simps S)
  also have "\<dots> = [(?a + 1, dflt)]"
    using a by (rule place_remove_single)
  also have "?a + 1 = of_nat (Suc (Suc n))"
    by simp
  finally show ?case .
qed

text \<open>During the run the store never holds more than two records.\<close>

lemma rolling_ops_store_bounded:
  "n < 2 ^ 64 - 1 \<Longrightarrow> length (run_ops dflt (take m (rolling_ops n)) []) \<le> 2"
proof (induction n arbitrary: m)
  case 0
  show ?case
    by (cases m) (simp_all add: Container_place_def map_insert_def map_find_def)
next
  case (Suc n)
  let ?a = "of_nat (Suc n) :: size_t"
  from Suc.prems have n: "n < 2 ^ 64 - 1"
    by simp
  have S: "run_ops dflt (rolling_ops n) [] = [(?a, dflt)]"
    using n by (rule run_rolling_ops)
  have a: "?a \<noteq> - 1"
    using Suc.prems by (intro of_nat_below_top) simp
  show ?case
  proof (cases "m \<le> length (rolling_ops n)")
    case True
    with Suc.IH [OF n, of m] show ?thesis
      by simp
  next
    case False
    then obtain r where r: "m - length (rolling_ops n) = Suc r"
      by (cases "m - length (rolling_ops n)") simp_all
    from False have t: "take m (rolling_ops n) = rolling_ops n"
      by simp
    show ?thesis
    proof (cases r)
      case 0
      with r t show ?thesis
        by (simp add: run_ops_append S place_single [OF a] del: of_nat_Suc)
    next
      case (Suc r')
      with r t show ?thesis
        by (simp add: run_ops_append S place_remove_single [OF a] del: of_nat_Suc)
    qed
  qed
qed

lemma run_rolling_ops_wrap:
  assumes "n = 2 ^ 64 - 2"
  shows "run_ops dflt (rolling_ops n @ [Place]) [] = [(0, dflt), (SIZE_MAX, dflt)]"
proof -
  have n: "n < 2 ^ 64 - 1"
    using assms by simp
  have "(of_nat (Suc n) :: size_t) = - 1"
    unfolding assms by simp
  with run_rolling_ops [OF n, of dflt]
  have "run_ops dflt (rolling_ops n) [] = [(- 1, dflt)]"
    by simp
  moreover have "(0 :: size_t) < - 1"
    using below_SIZE_MAX [of 0] by (simp add: SIZE_MAX_def)
  ultimately show ?thesis
    by (simp add: run_ops_append Container_place_def Let_def map_insert_def map_find_def
        SIZE_MAX_def)
qed

text \<open>
  C2 as stated fails. From the empty object store, one allocation and \<open>2 ^ 64 - 2\<close>
  rounds of allocating the next record and removing the previous one leave the single
  handle \<open>SIZE_MAX\<close> live, with never more than two records in the store. The next
  \<^verbatim>\<open>place\<close> wraps to handle 0; the store is then \<open>{0, SIZE_MAX}\<close>, and the \<^verbatim>\<open>place\<close>
  after that returns 0 again, the handle of a live record.
\<close>

theorem place_returns_live_handle_counterexample:
  "run_ops ([] :: InternalObject) (rolling_ops (2 ^ 64 - 2) @ [Place]) []
     = [(0, []), (SIZE_MAX, [])]
   \<and> fst (Container_place ([] :: InternalObject) [(0, []), (SIZE_MAX, [])]) = 0
   \<and> Container_has (run_ops ([] :: InternalObject) (rolling_ops (2 ^ 64 - 2) @ [Place]) [])
        (fst (Container_place ([] :: InternalObject)
          (run_ops ([] :: InternalObject) (rolling_ops (2 ^ 64 - 2) @ [Place]) [])))"
proof -
  have run: "run_ops ([] :: InternalObject) (rolling_ops (2 ^ 64 - 2) @ [Place]) []
      = [(0, []), (SIZE_MAX, [])]"
    by (rule run_rolling_ops_wrap) simp
  have place: "fst (Container_place ([] :: InternalObject) [(0, []), (SIZE_MAX, [])]) = 0"
    by (simp add: Container_place_def SIZE_MAX_def)
  show ?thesis
    unfolding run place by (simp add: Container_has_def map_find_def)
qed

section \<open>Layout of an instance\<close>

lemma chain_size: "c \<in> set (chain C) \<Longrightarrow> size c \<le> size C"
  by (induction C rule: chain.induct) auto

lemma distinct_chain: "distinct (chain C)"
proof (induction C rule: chain.induct)
  case (1 n fs)
  then show ?case by simp
next
  case (2 n fs s)
  have "JavaClass n fs (Some s) \<notin> set (chain s)"
  proof
    assume "JavaClass n fs (Some s) \<in> set (chain s)"
    from chain_size [OF this] show False by simp
  qed
  with 2 show ?case by simp
qed

lemma length_initFields [simp]: "length (initFields init fs base slots) = length slots"
  by (induction init fs base slots rule: initFields.induct) simp_all

lemma length_createSuperFields [simp]:
  "length (snd (createSuperFields init C slots)) = length slots"
  by (induction init C slots rule: createSuperFields.induct) (simp_all add: case_prod_beta)

lemma fieldsBase_index:
  "i < length cs \<Longrightarrow> distinct cs \<Longrightarrow>
   fieldsBase cs (cs ! i) base
     = Some (base + sum_list (map (\<lambda>c. length (declaredFields c)) (take i cs)))"
proof (induction cs arbitrary: i base)
  case Nil
  then show ?case by simp
next
  case (Cons c cs)
  show ?case
  proof (cases i)
    case 0
    then show ?thesis by simp
  next
    case (Suc j)
    with Cons.prems have j: "j < length cs" and d: "distinct cs" and "cs ! j \<noteq> c"
      by auto
    with Cons.IH [OF j d] Suc show ?thesis
      by (auto simp: add.assoc)
  qed
qed

lemma localIndex_found:
  "(name, descriptor) \<in> set fs \<Longrightarrow>
   \<exists>j. localIndex fs name descriptor i = Some j \<and> i \<le> j \<and> j < i + length fs"
proof (induction fs arbitrary: i)
  case Nil
  then show ?case by simp
next
  case (Cons f fs)
  show ?case
  proof (cases "f = (name, descriptor)")
    case True
    then show ?thesis by simp
  next
    case False
    with Cons.prems have "(name, descriptor) \<in> set fs" by simp
    from Cons.IH [OF this, of "Suc i"] False show ?thesis
      by auto
  qed
qed


lemma Container_place_live: "map_find (snd (Container_place dflt data)) (fst (Container_place dflt data)) \<noteq> None"
  by (simp add: Container_place_def Let_def map_find_map_insert)

lemma createObject_record:
  "Container_find (objectContainer (snd (createObject init C h)))
      (offset (fst (createObject init C h)))
    = Returns (snd (createSuperFields init C (replicate (slotCount C) Null)))"
proof -
  obtain r where "map_find (snd (Container_place [] (objectContainer h)))
      (fst (Container_place [] (objectContainer h))) = Some r"
    using Container_place_live [of "[]" "objectContainer h"] by blast
  then show ?thesis
    by (simp add: createObject_def ObjectContainer_place_def case_prod_beta Let_def
        Container_find_def map_find_map_assign)
qed

text \<open>
  C3. For every class \<open>C\<close> with ancestor chain \<open>chain C\<close> (root first), the record
  \<^verbatim>\<open>createObject\<close> stores under the handle it returns has as many slots as the classes
  of the chain declare fields in total (none for a chain that declares no field); and a
  field (name, descriptor) declared by the \<open>i\<close>-th class of the chain resolves to a slot
  index that is at least the sum of the field counts of the classes before \<open>i\<close> and at
  most that sum plus the field count of the \<open>i\<close>-th class minus 1.
\<close>

theorem instance_layout:
  "(\<exists>slots. Container_find (objectContainer (snd (createObject init C h)))
              (offset (fst (createObject init C h))) = Returns slots
            \<and> length slots = sum_list (map (\<lambda>c. length (declaredFields c)) (chain C)))
   \<and> (i < length (chain C) \<and> (name, descriptor) \<in> set (declaredFields (chain C ! i))
      \<longrightarrow> (\<exists>idx. resolveField C (chain C ! i) name descriptor = Returns idx
            \<and> sum_list (map (\<lambda>c. length (declaredFields c)) (take i (chain C))) \<le> idx
            \<and> idx \<le> sum_list (map (\<lambda>c. length (declaredFields c)) (take i (chain C)))
                      + length (declaredFields (chain C ! i)) - 1))"
proof (intro conjI impI)
  show "\<exists>slots. Container_find (objectContainer (snd (createObject init C h)))
              (offset (fst (createObject init C h))) = Returns slots
            \<and> length slots = sum_list (map (\<lambda>c. length (declaredFields c)) (chain C))"
    unfolding createObject_record by (simp add: slotCount_def)
next
  assume "i < length (chain C) \<and> (name, descriptor) \<in> set (declaredFields (chain C ! i))"
  then have i: "i < length (chain C)"
    and f: "(name, descriptor) \<in> set (declaredFields (chain C ! i))"
    by simp_all
  let ?base = "sum_list (map (\<lambda>c. length (declaredFields c)) (take i (chain C)))"
  have b: "fieldsBase (chain C) (chain C ! i) 0 = Some ?base"
    using fieldsBase_index [OF i distinct_chain, of 0] by simp
  obtain j where j: "localIndex (declaredFields (chain C ! i)) name descriptor 0 = Some j"
    and lt: "j < length (declaredFields (chain C ! i))"
    using localIndex_found [OF f, of 0] by auto
  have "resolveField C (chain C ! i) name descriptor = Returns (?base + j)"
    by (simp add: resolveField_def b j)
  moreover have "?base + j \<le> ?base + length (declaredFields (chain C ! i)) - 1"
    using lt by simp
  ultimately show "\<exists>idx. resolveField C (chain C ! i) name descriptor = Returns idx
            \<and> ?base \<le> idx \<and> idx \<le> ?base + length (declaredFields (chain C ! i)) - 1"
    by simp
qed

theorem instance_layout_witness:
  "1 < length (chain (JavaClass ''B'' [(''y'', ''I'')] (Some (JavaClass ''A'' [(''x'', ''I'')] None))))
   \<and> chain (JavaClass ''B'' [(''y'', ''I'')] (Some (JavaClass ''A'' [(''x'', ''I'')] None)))
     = [JavaClass ''A'' [(''x'', ''I'')] None,
        JavaClass ''B'' [(''y'', ''I'')] (Some (JavaClass ''A'' [(''x'', ''I'')] None))]
   \<and> (''y'', ''I'') \<in> set (declaredFields
        (chain (JavaClass ''B'' [(''y'', ''I'')] (Some (JavaClass ''A'' [(''x'', ''I'')] None))) ! 1))
   \<and> resolveField (JavaClass ''B'' [(''y'', ''I'')] (Some (JavaClass ''A'' [(''x'', ''I'')] None)))
        (JavaClass ''B'' [(''y'', ''I'')] (Some (JavaClass ''A'' [(''x'', ''I'')] None)))
        ''y'' ''I'' = Returns 1
   \<and> (\<exists>slots. Container_find (objectContainer (snd (createObject (\<lambda>d. Null)
          (JavaClass ''B'' [(''y'', ''I'')] (Some (JavaClass ''A'' [(''x'', ''I'')] None)))
          \<lparr>objectContainer = [], arrayContainer = [], monitorContainer = [],
           buffers = Map.empty, live = {}\<rparr>))) 1 = Returns slots \<and> length slots = 2)
   \<and> (\<exists>slots. Container_find (objectContainer (snd (createObject (\<lambda>d. Null)
          (JavaClass ''Object'' [] None)
          \<lparr>objectContainer = [], arrayContainer = [], monitorContainer = [],
           buffers = Map.empty, live = {}\<rparr>))) 1 = Returns slots \<and> length slots = 0)"
  using instance_layout [where i = 1
      and C = "JavaClass ''B'' [(''y'', ''I'')] (Some (JavaClass ''A'' [(''x'', ''I'')] None))"
      and name = "''y''" and descriptor = "''I''" and init = "\<lambda>d. Null"
      and h = "\<lparr>objectContainer = [], arrayContainer = [], monitorContainer = [],
        buffers = Map.empty, live = {}\<rparr>"]
    instance_layout [where i = 0 and C = "JavaClass ''Object'' [] None"
      and name = "''y''" and descriptor = "''I''" and init = "\<lambda>d. Null"
      and h = "\<lparr>objectContainer = [], arrayContainer = [], monitorContainer = [],
        buffers = Map.empty, live = {}\<rparr>"]
  by (simp add: resolveField_def createObject_def ObjectContainer_place_def Container_place_def
      map_insert_def map_find_def map_assign_def Container_find_def slotCount_def)

end
